theory Spec2Isabelle
  imports Main "HOL-Library.Sublist"
begin

section \<open>Strings of the host language\<close>

text \<open>
  A string is a list of code units. The model covers the code units below 256 (the
  Latin-1 block of UTF-16), one \<^typ>\<open>char\<close> each; \<open>of_char\<close> reads the code unit as a
  number.
\<close>

text \<open>\<open>String.prototype.toLowerCase\<close> on one code unit: \<open>A\<close>..\<open>Z\<close> and the Latin-1
  capitals (192..222 without the multiplication sign 215) move up by 32.\<close>

definition toLowerCase_char :: "char \<Rightarrow> char" where
  "toLowerCase_char c =
     (let n = (of_char c :: nat) in
      if (65 \<le> n \<and> n \<le> 90) \<or> (192 \<le> n \<and> n \<le> 222 \<and> n \<noteq> 215)
      then char_of (n + 32) else c)"

definition toLowerCase :: "string \<Rightarrow> string" where
  "toLowerCase s = map toLowerCase_char s"

text \<open>The white space and line terminators that \<open>String.prototype.trim\<close> strips:
  TAB, LF, VT, FF, CR, SP and NBSP.\<close>

definition isTrimmed :: "char \<Rightarrow> bool" where
  "isTrimmed c = ((of_char c :: nat) \<in> {9, 10, 11, 12, 13, 32, 160})"

definition trim :: "string \<Rightarrow> string" where
  "trim s = rev (dropWhile isTrimmed (rev (dropWhile isTrimmed s)))"

text \<open>\<open>s.includes(p)\<close>: \<open>p\<close> occurs in \<open>s\<close> as a contiguous run of code units.\<close>

fun str_includes :: "string \<Rightarrow> string \<Rightarrow> bool" where
  "str_includes [] p = (p = [])"
| "str_includes (c # cs) p = (prefix p (c # cs) \<or> str_includes cs p)"

text \<open>
  Case folding of a regular expression with the \<open>i\<close> flag and without the \<open>u\<close> flag: a
  code unit is compared through its upper-case form. \<open>a\<close>..\<open>z\<close> and the Latin-1 small
  letters (224..254 without the division sign 247) move down by 32. The upper-case
  forms of the code units 181 and 255 lie beyond 255 and that of 223 is two code units
  long; none of them meets the form of another code unit below 256, so the three stay
  as they are.
\<close>

definition canonicalize :: "char \<Rightarrow> char" where
  "canonicalize c =
     (let n = (of_char c :: nat) in
      if (97 \<le> n \<and> n \<le> 122) \<or> (224 \<le> n \<and> n \<le> 254 \<and> n \<noteq> 247)
      then char_of (n - 32) else c)"

text \<open>\<open>s.match(/(p1|p2|...)/i)\<close> read as a truth value: some alternative occurs in \<open>s\<close>
  up to case.\<close>

definition regex_test :: "string list \<Rightarrow> string \<Rightarrow> bool" where
  "regex_test alts s =
     list_ex (\<lambda>p. str_includes (map canonicalize s) (map canonicalize p)) alts"

section \<open>The vocabulary\<close>

text \<open>\<open>COLOR_VARIATIONS\<close>: an object literal; \<open>Object.entries\<close> and \<open>Object.values\<close>
  enumerate it in insertion order.\<close>

definition COLOR_VARIATIONS :: "(string \<times> string list) list" where
  "COLOR_VARIATIONS =
    [(''red'', [''red'', ''crimson'', ''scarlet'']),
     (''blue'', [''blue'', ''azure'', ''navy'']),
     (''green'', [''green'', ''emerald'', ''lime'']),
     (''yellow'', [''yellow'', ''golden'', ''amber'']),
     (''white'', [''white'', ''bright'', ''light'']),
     (''black'', [''black'', ''dark'', ''midnight'']),
     (''purple'', [''purple'', ''violet'', ''lavender'']),
     (''orange'', [''orange'', ''tangerine'']),
     (''pink'', [''pink'', ''rose'', ''magenta''])]"

definition colorPhrases :: "string list" where
  "colorPhrases =
    [''change to'', ''switch to'', ''make it'', ''set to'', ''set it to'',
     ''change the color to'', ''set the color to'', ''turn it'', ''set light to'',
     ''change light to'', ''make the light'']"

section \<open>Interpreting a transcript\<close>

text \<open>The two variables \<open>action\<close> and \<open>color\<close> of \<open>processVoiceCommand\<close>; the empty
  string is the value of a variable that no step has assigned.\<close>

record command =
  action :: string
  color :: string

text \<open>The power step. The pattern \<open>/turn (on|off)/i\<close> is the alternation of \<open>turn on\<close>
  and \<open>turn off\<close>.\<close>

definition power_step :: "string \<Rightarrow> command \<Rightarrow> command" where
  "power_step cmd st =
     (if regex_test [''turn on'', ''turn off''] cmd \<or> regex_test [''on'', ''off''] cmd
      then st\<lparr>action := (if str_includes cmd ''off'' then ''turn_off'' else ''turn_on'')\<rparr>
      else st)"

definition hasColorCommand :: "string \<Rightarrow> bool" where
  "hasColorCommand cmd =
     (list_ex (\<lambda>phrase. str_includes cmd phrase) colorPhrases \<or>
      str_includes cmd ''color'' \<or>
      list_ex (\<lambda>color. str_includes cmd color) (concat (map snd COLOR_VARIATIONS)))"

text \<open>The \<open>for\<close> loop over the entries of the table, left at the first entry one of
  whose variations occurs in the command.\<close>

fun color_loop :: "(string \<times> string list) list \<Rightarrow> string \<Rightarrow> command \<Rightarrow> command" where
  "color_loop [] cmd st = st"
| "color_loop ((baseColor, variations) # rest) cmd st =
     (if list_ex (\<lambda>variant. str_includes cmd variant) variations
      then st\<lparr>action := ''set_color'', color := baseColor\<rparr>
      else color_loop rest cmd st)"

definition color_step :: "string \<Rightarrow> command \<Rightarrow> command" where
  "color_step cmd st =
     (if hasColorCommand cmd \<or> action st = ''''
      then color_loop COLOR_VARIATIONS cmd st else st)"

definition brightness_step :: "string \<Rightarrow> command \<Rightarrow> command" where
  "brightness_step cmd st =
     (if regex_test [''bright'', ''dim'', ''brightness''] cmd then
        if regex_test [''full'', ''max'', ''maximum'', ''brightest''] cmd
        then st\<lparr>action := ''set_brightness'', color := ''100''\<rparr>
        else if regex_test [''half'', ''medium'', ''mid''] cmd
        then st\<lparr>action := ''set_brightness'', color := ''50''\<rparr>
        else if regex_test [''low'', ''dim'', ''minimum''] cmd
        then st\<lparr>action := ''set_brightness'', color := ''20''\<rparr>
        else st
      else st)"

text \<open>\<open>processVoiceCommand\<close> up to the point where it hands \<open>action\<close> and \<open>color\<close> to
  \<open>sendCommand\<close>.\<close>

definition processVoiceCommand :: "string \<Rightarrow> command" where
  "processVoiceCommand text =
     (let cmd = trim (toLowerCase text) in
      brightness_step cmd
        (color_step cmd
          (power_step cmd \<lparr>action = '''', color = ''''\<rparr>)))"

section \<open>Sending a command\<close>

text \<open>A value thrown or carried by a rejected promise: an \<open>Error\<close> object with its
  message, or a value that is no instance of \<open>Error\<close>.\<close>

datatype thrown = Error string | NonError

datatype 'a settled = Fulfilled 'a | Rejected thrown

text \<open>What the code reads of a \<open>Response\<close>: the status, and the promise of
  \<open>response.text()\<close>, which is rejected when the body cannot be read.\<close>

record response =
  status :: nat
  body_text :: "string settled"

text \<open>\<open>response.ok\<close>, as the Fetch standard defines it.\<close>

definition ok :: "response \<Rightarrow> bool" where
  "ok r = (200 \<le> status r \<and> status r \<le> 299)"

text \<open>
  What a call of \<open>sendCommand\<close> finds around it: the \<open>webhookUrl\<close> of the component
  state, whether \<open>Platform.OS\<close> is \<open>"web"\<close>, the serialisation
  \<open>new URLSearchParams(payload).toString()\<close> of the platform, and how the request to a
  URL settles (a rejection stands for a network failure, and in \<open>index.tsx\<close> also for
  the abort after ten seconds).
\<close>

record env =
  webhookUrl :: string
  platform_web :: bool
  urlSearchParams :: "(string \<times> string) list \<Rightarrow> string"
  fetch :: "string \<Rightarrow> response settled"

text \<open>The effects of a call, in the order in which they happen.\<close>

datatype event =
    SetIsLoading bool
  | ConsoleLog string "(string \<times> string) list"
  | ConsoleLogText string string
  | Get string
  | SetLastCommand string
  | ConsoleError string thrown
  | Alert string string

text \<open>The decimal numeral that a template literal writes for a number.\<close>

function show_nat :: "nat \<Rightarrow> string" where
  "show_nat n =
     (if n < 10 then [char_of (48 + n)]
      else show_nat (n div 10) @ [char_of (48 + n mod 10)])"
  by pat_completeness auto
termination
  by (relation "measure id") auto

declare show_nat.simps [simp del]

text \<open>An optional string argument: \<open>None\<close> is \<open>undefined\<close>. \<open>truthy\<close> is its truth
  value, \<open>or_empty\<close> is \<open>value || ''\<close>.\<close>

definition truthy :: "string option \<Rightarrow> bool" where
  "truthy v = (case v of None \<Rightarrow> False | Some s \<Rightarrow> s \<noteq> '''')"

definition or_empty :: "string option \<Rightarrow> string" where
  "or_empty v = (if truthy v then the v else '''')"

text \<open>The \<open>payload\<close> object of \<open>sendCommand\<close> in the voice screen, as its entries in
  insertion order.\<close>

definition payload :: "string \<Rightarrow> string option \<Rightarrow> (string \<times> string) list" where
  "payload act v =
     (''action'', act) #
     (if act = ''set_color'' \<and> truthy v then [(''color'', the v)]
      else if act = ''set_brightness'' \<and> truthy v then [(''brightness'', the v)]
      else [])"

text \<open>The \<open>try\<close> block of \<open>sendCommand\<close> in the voice screen after the request has
  settled: it completes, or it throws.\<close>

definition check_response :: "response settled \<Rightarrow> unit settled" where
  "check_response res =
     (case res of
        Rejected e \<Rightarrow> Rejected e
      | Fulfilled r \<Rightarrow>
          if \<not> ok r then
            (case body_text r of
               Rejected e \<Rightarrow> Rejected e
             | Fulfilled t \<Rightarrow> Rejected (Error (''HTTP '' @ show_nat (status r) @ '': '' @ t)))
          else Fulfilled ())"

text \<open>\<open>sendCommand\<close> of the voice screen.\<close>

definition sendCommand :: "env \<Rightarrow> string \<Rightarrow> string option \<Rightarrow> event list" where
  "sendCommand e act v =
     (if trim (webhookUrl e) = '''' then
        (if \<not> platform_web e
         then [Alert ''Error'' ''Please set your n8n webhook URL first''] else [])
      else
        (let pl = payload act v;
             queryParams = urlSearchParams e pl;
             urlWithParams = trim (webhookUrl e) @ ''?'' @ queryParams
         in [SetIsLoading True, ConsoleLog ''Sending command:'' pl, Get urlWithParams] @
            (case check_response (fetch e urlWithParams) of
               Fulfilled u \<Rightarrow> [SetLastCommand (act @ '' '' @ or_empty v)]
             | Rejected err \<Rightarrow>
                 [ConsoleError ''Error sending command:'' err,
                  Alert ''Error'' ''Failed to send command. Please check your webhook URL.'']) @
            [SetIsLoading False]))"

text \<open>The same operation in \<open>index.tsx\<close>: the payload carries \<open>color\<close> whenever the
  argument is truthy, a body that cannot be read is replaced by \<open>"Unknown error"\<close>, and
  the alerts are left out on the web.\<close>

definition payload_index :: "string \<Rightarrow> string option \<Rightarrow> (string \<times> string) list" where
  "payload_index act v =
     (if truthy v then [(''action'', act), (''color'', the v)] else [(''action'', act)])"

definition check_response_index :: "response settled \<Rightarrow> unit settled" where
  "check_response_index res =
     (case res of
        Rejected e \<Rightarrow> Rejected e
      | Fulfilled r \<Rightarrow>
          if ok r then Fulfilled ()
          else
            (let errorText = (case body_text r of
                                Rejected e \<Rightarrow> ''Unknown error''
                              | Fulfilled t \<Rightarrow> t)
             in Rejected (Error (''HTTP '' @ show_nat (status r) @ '': '' @ errorText))))"

definition sendCommand_index :: "env \<Rightarrow> string \<Rightarrow> string option \<Rightarrow> event list" where
  "sendCommand_index e act v =
     (if trim (webhookUrl e) = '''' then
        (if \<not> platform_web e
         then [Alert ''Error'' ''Please set your n8n webhook URL first''] else [])
      else
        (let pl = payload_index act v;
             queryParams = urlSearchParams e pl;
             urlWithParams = trim (webhookUrl e) @ ''?'' @ queryParams
         in [SetIsLoading True, ConsoleLog ''Sending command:'' pl, Get urlWithParams] @
            (case check_response_index (fetch e urlWithParams) of
               Fulfilled u \<Rightarrow>
                 (let actionText = (if truthy v then act @ '' ('' @ the v @ '')'' else act)
                  in ConsoleLogText ''Command sent successfully:'' actionText #
                     (if \<not> platform_web e
                      then [Alert ''Success'' (''Command sent: '' @ actionText)] else []))
             | Rejected err \<Rightarrow>
                 ConsoleError ''Error sending command:'' err #
                 (if \<not> platform_web e
                  then (let errorMessage = (case err of Error m \<Rightarrow> m
                                            | NonError \<Rightarrow> ''Unknown error'')
                        in [Alert ''Error'' (''Failed to send command: '' @ errorMessage)])
                  else [])) @
            [SetIsLoading False]))"

section \<open>Facts about strings\<close>

lemma str_includes_iff: "str_includes s p \<longleftrightarrow> (\<exists>a b. s = a @ p @ b)"
proof (induction s)
  case Nil
  show ?case by auto
next
  case (Cons c cs)
  show ?case
  proof
    assume "str_includes (c # cs) p"
    then consider "prefix p (c # cs)" | "str_includes cs p" by auto
    then show "\<exists>a b. c # cs = a @ p @ b"
    proof cases
      case 1
      then obtain b where "c # cs = p @ b" by (auto simp: prefix_def)
      then have "c # cs = [] @ p @ b" by simp
      then show ?thesis by blast
    next
      case 2
      with Cons.IH obtain a b where "cs = a @ p @ b" by blast
      then have "c # cs = (c # a) @ p @ b" by simp
      then show ?thesis by blast
    qed
  next
    assume "\<exists>a b. c # cs = a @ p @ b"
    then obtain a b where ab: "c # cs = a @ p @ b" by blast
    show "str_includes (c # cs) p"
    proof (cases a)
      case Nil
      with ab have "prefix p (c # cs)" by (simp add: prefix_def)
      then show ?thesis by simp
    next
      case (Cons x a')
      with ab have "cs = a' @ p @ b" by simp
      with Cons.IH have "str_includes cs p" by blast
      then show ?thesis by simp
    qed
  qed
qed

lemma of_char_lt_256: "(of_char c :: nat) < 256"
  by (cases c) (simp add: of_bool_def)

lemma of_char_toLowerCase_char:
  "(of_char (toLowerCase_char c) :: nat) =
     (let n = of_char c in
      if (65 \<le> n \<and> n \<le> 90) \<or> (192 \<le> n \<and> n \<le> 222 \<and> n \<noteq> 215) then n + 32 else n)"
  by (simp add: toLowerCase_char_def Let_def)

lemma of_char_canonicalize:
  "(of_char (canonicalize c) :: nat) =
     (let n = of_char c in
      if (97 \<le> n \<and> n \<le> 122) \<or> (224 \<le> n \<and> n \<le> 254 \<and> n \<noteq> 247) then n - 32 else n)"
  using of_char_lt_256 [of c] by (auto simp add: canonicalize_def Let_def)

lemma toLowerCase_char_range:
  fixes n :: nat
  assumes "n = of_char (toLowerCase_char c)"
  shows "\<not> (65 \<le> n \<and> n \<le> 90)" and "\<not> (192 \<le> n \<and> n \<le> 222 \<and> n \<noteq> 215)"
  using assms of_char_lt_256 [of c] unfolding of_char_toLowerCase_char Let_def
  by (cases "(65 \<le> (of_char c :: nat) \<and> (of_char c :: nat) \<le> 90) \<or>
      (192 \<le> (of_char c :: nat) \<and> (of_char c :: nat) \<le> 222 \<and> (of_char c :: nat) \<noteq> 215)"; simp; arith)+

lemma lower_fixed:
  fixes n :: nat
  assumes "n = of_char c" "\<not> (65 \<le> n \<and> n \<le> 90)" "\<not> (192 \<le> n \<and> n \<le> 222 \<and> n \<noteq> 215)"
  shows "toLowerCase_char c = c"
  using assms by (auto simp add: toLowerCase_char_def Let_def)

lemma fold_inj_aux:
  fixes a b :: nat
  assumes a: "\<not> (65 \<le> a \<and> a \<le> 90)" "\<not> (192 \<le> a \<and> a \<le> 222 \<and> a \<noteq> 215)"
    and b: "\<not> (65 \<le> b \<and> b \<le> 90)" "\<not> (192 \<le> b \<and> b \<le> 222 \<and> b \<noteq> 215)"
    and eq: "(if (97 \<le> a \<and> a \<le> 122) \<or> (224 \<le> a \<and> a \<le> 254 \<and> a \<noteq> 247) then a - 32 else a) =
             (if (97 \<le> b \<and> b \<le> 122) \<or> (224 \<le> b \<and> b \<le> 254 \<and> b \<noteq> 247) then b - 32 else b)"
  shows "a = b"
proof (cases "(97 \<le> a \<and> a \<le> 122) \<or> (224 \<le> a \<and> a \<le> 254 \<and> a \<noteq> 247)")
  case sa: True
  show ?thesis
  proof (cases "(97 \<le> b \<and> b \<le> 122) \<or> (224 \<le> b \<and> b \<le> 254 \<and> b \<noteq> 247)")
    case True
    from eq have "a - 32 = b - 32" unfolding if_P [OF sa] if_P [OF True] .
    with sa True show ?thesis by arith
  next
    case False
    from eq have "a - 32 = b" unfolding if_P [OF sa] if_not_P [OF False] .
    with sa b show ?thesis by arith
  qed
next
  case na: False
  show ?thesis
  proof (cases "(97 \<le> b \<and> b \<le> 122) \<or> (224 \<le> b \<and> b \<le> 254 \<and> b \<noteq> 247)")
    case True
    from eq have "a = b - 32" unfolding if_not_P [OF na] if_P [OF True] .
    with True a show ?thesis by arith
  next
    case False
    from eq show ?thesis unfolding if_not_P [OF na] if_not_P [OF False] .
  qed
qed

lemma canonicalize_inj_on_lowered:
  assumes c: "toLowerCase_char c = c" and d: "toLowerCase_char d = d"
    and eq: "canonicalize c = canonicalize d"
  shows "c = d"
proof -
  have a: "(of_char c :: nat) = of_char (toLowerCase_char c)" by (simp only: c)
  have b: "(of_char d :: nat) = of_char (toLowerCase_char d)" by (simp only: d)
  have e: "(of_char (canonicalize c) :: nat) = of_char (canonicalize d)" by (simp only: eq)
  have "(of_char c :: nat) = of_char d"
    by (rule fold_inj_aux [OF toLowerCase_char_range [OF a] toLowerCase_char_range [OF b]
          e [unfolded of_char_canonicalize Let_def]])
  then show ?thesis by (rule of_char_eqI)
qed

lemma toLowerCase_char_idem: "toLowerCase_char (toLowerCase_char c) = toLowerCase_char c"
  by (rule lower_fixed [OF refl toLowerCase_char_range [OF refl]])

lemma str_includes_map:
  assumes "str_includes s p"
  shows "str_includes (map f s) (map f p)"
proof -
  from assms obtain a b where "s = a @ p @ b" unfolding str_includes_iff by blast
  then have "map f s = map f a @ map f p @ map f b" by simp
  then show ?thesis unfolding str_includes_iff by blast
qed

lemma str_includes_map_inj:
  assumes inj: "inj_on f (set s \<union> set p)" and m: "str_includes (map f s) (map f p)"
  shows "str_includes s p"
proof -
  from m obtain a b where ab: "map f s = a @ map f p @ b" unfolding str_includes_iff by blast
  then obtain s1 s23 where s1: "s = s1 @ s23" "a = map f s1" "map f p @ b = map f s23"
    unfolding map_eq_append_conv by blast
  from s1(3) obtain s2 s3 where s2: "s23 = s2 @ s3" "map f p = map f s2" "b = map f s3"
    unfolding append_eq_map_conv by blast
  have "set s2 \<subseteq> set s" using s1(1) s2(1) by auto
  then have "inj_on f (set p \<union> set s2)" using inj by (auto intro: inj_on_subset)
  from inj_on_map_eq_map [OF this] s2(2) have "s2 = p" by simp
  with s1(1) s2(1) have "s = s1 @ p @ s3" by simp
  then show ?thesis unfolding str_includes_iff by blast
qed

lemma set_trim: "set (trim s) \<subseteq> set s"
proof -
  have "set (dropWhile isTrimmed (rev (dropWhile isTrimmed s))) \<subseteq> set (rev (dropWhile isTrimmed s))"
    by (auto dest: set_dropWhileD)
  also have "\<dots> \<subseteq> set s" by (auto dest: set_dropWhileD)
  finally show ?thesis by (simp add: trim_def)
qed

lemma command_lowered:
  assumes "c \<in> set (trim (toLowerCase t))"
  shows "toLowerCase_char c = c"
proof -
  from assms set_trim have "c \<in> set (toLowerCase t)" by blast
  then show ?thesis by (auto simp: toLowerCase_def toLowerCase_char_idem)
qed

lemma regex_test_lowered:
  assumes s: "\<forall>c\<in>set s. toLowerCase_char c = c"
    and alts: "\<forall>p\<in>set alts. \<forall>c\<in>set p. toLowerCase_char c = c"
  shows "regex_test alts s = list_ex (str_includes s) alts"
proof -
  have "str_includes (map canonicalize s) (map canonicalize p) = str_includes s p"
    if p: "p \<in> set alts" for p
  proof
    assume m: "str_includes (map canonicalize s) (map canonicalize p)"
    have "inj_on canonicalize (set s \<union> set p)"
    proof (rule inj_onI)
      fix x y
      assume x: "x \<in> set s \<union> set p" and y: "y \<in> set s \<union> set p"
        and eq: "canonicalize x = canonicalize y"
      from x s alts p have lx: "toLowerCase_char x = x" by blast
      from y s alts p have ly: "toLowerCase_char y = y" by blast
      from lx ly eq show "x = y" by (rule canonicalize_inj_on_lowered)
    qed
    then show "str_includes s p" using m by (rule str_includes_map_inj)
  qed (rule str_includes_map)
  then show ?thesis by (simp add: regex_test_def list_ex_iff)
qed

lemma lowered_literals:
  "\<forall>p\<in>set [''turn on'', ''turn off'', ''on'', ''off'']. \<forall>c\<in>set p. toLowerCase_char c = c"
  "\<forall>p\<in>set [''bright'', ''dim'', ''brightness'', ''full'', ''max'', ''maximum'', ''brightest'',
      ''half'', ''medium'', ''mid'', ''low'', ''minimum'']. \<forall>c\<in>set p. toLowerCase_char c = c"
  by (simp_all add: toLowerCase_char_def)

section \<open>Facts about the steps\<close>

lemma power_step_lowered:
  assumes "\<forall>c\<in>set cmd. toLowerCase_char c = c"
  shows "power_step cmd st =
     (if list_ex (str_includes cmd) [''turn on'', ''turn off'', ''on'', ''off'']
      then st\<lparr>action := (if str_includes cmd ''off'' then ''turn_off'' else ''turn_on'')\<rparr>
      else st)"
proof -
  have "regex_test [''turn on'', ''turn off''] cmd = list_ex (str_includes cmd) [''turn on'', ''turn off'']"
    using assms lowered_literals(1) by (intro regex_test_lowered) simp_all
  moreover have "regex_test [''on'', ''off''] cmd = list_ex (str_includes cmd) [''on'', ''off'']"
    using assms lowered_literals(1) by (intro regex_test_lowered) simp_all
  ultimately show ?thesis by (simp add: power_step_def)
qed

lemma brightness_step_lowered:
  assumes "\<forall>c\<in>set cmd. toLowerCase_char c = c"
  shows "brightness_step cmd st =
     (if list_ex (str_includes cmd) [''bright'', ''dim'', ''brightness''] then
        if list_ex (str_includes cmd) [''full'', ''max'', ''maximum'', ''brightest'']
        then st\<lparr>action := ''set_brightness'', color := ''100''\<rparr>
        else if list_ex (str_includes cmd) [''half'', ''medium'', ''mid'']
        then st\<lparr>action := ''set_brightness'', color := ''50''\<rparr>
        else if list_ex (str_includes cmd) [''low'', ''dim'', ''minimum'']
        then st\<lparr>action := ''set_brightness'', color := ''20''\<rparr>
        else st
      else st)"
proof -
  have 1: "regex_test [''bright'', ''dim'', ''brightness''] cmd
      = list_ex (str_includes cmd) [''bright'', ''dim'', ''brightness'']"
    using assms lowered_literals(2) by (intro regex_test_lowered) simp_all
  have 2: "regex_test [''full'', ''max'', ''maximum'', ''brightest''] cmd
      = list_ex (str_includes cmd) [''full'', ''max'', ''maximum'', ''brightest'']"
    using assms lowered_literals(2) by (intro regex_test_lowered) simp_all
  have 3: "regex_test [''half'', ''medium'', ''mid''] cmd
      = list_ex (str_includes cmd) [''half'', ''medium'', ''mid'']"
    using assms lowered_literals(2) by (intro regex_test_lowered) simp_all
  have 4: "regex_test [''low'', ''dim'', ''minimum''] cmd
      = list_ex (str_includes cmd) [''low'', ''dim'', ''minimum'']"
    using assms lowered_literals(2) by (intro regex_test_lowered) simp_all
  show ?thesis unfolding brightness_step_def 1 2 3 4 ..
qed

lemma color_loop_none:
  assumes "\<forall>(c, vs)\<in>set tbl. \<not> list_ex (str_includes cmd) vs"
  shows "color_loop tbl cmd st = st"
  using assms by (induction tbl cmd st rule: color_loop.induct) auto

lemma color_loop_first:
  assumes "tbl = pre @ (c, vs) # post"
    and "\<forall>(c', vs')\<in>set pre. \<not> list_ex (str_includes cmd) vs'"
    and "list_ex (str_includes cmd) vs"
  shows "color_loop tbl cmd st = st\<lparr>action := ''set_color'', color := c\<rparr>"
  using assms
proof (induction pre arbitrary: tbl)
  case Nil
  then show ?case by simp
next
  case (Cons e pre)
  obtain c' vs' where e: "e = (c', vs')" by (cases e)
  with Cons.prems have "\<not> list_ex (str_includes cmd) vs'" by simp
  moreover have "color_loop (pre @ (c, vs) # post) cmd st = st\<lparr>action := ''set_color'', color := c\<rparr>"
    using Cons.prems by (intro Cons.IH) simp_all
  ultimately show ?case using Cons.prems(1) e by simp
qed

lemma color_loop_cases:
  "color_loop tbl cmd st = st \<or>
   (\<exists>c\<in>fst ` set tbl. color_loop tbl cmd st = st\<lparr>action := ''set_color'', color := c\<rparr>)"
  by (induction tbl cmd st rule: color_loop.induct) auto

lemma color_step_none:
  assumes "\<not> list_ex (str_includes cmd) (concat (map snd COLOR_VARIATIONS))"
  shows "color_step cmd st = st"
proof -
  from assms have "\<forall>(c, vs)\<in>set COLOR_VARIATIONS. \<not> list_ex (str_includes cmd) vs"
    by (fastforce simp: list_ex_iff)
  then have "color_loop COLOR_VARIATIONS cmd st = st" by (rule color_loop_none)
  then show ?thesis by (simp add: color_step_def)
qed

lemma color_step_some:
  assumes "list_ex (str_includes cmd) (concat (map snd COLOR_VARIATIONS))"
  shows "color_step cmd st = color_loop COLOR_VARIATIONS cmd st"
  using assms by (simp add: color_step_def hasColorCommand_def)

lemma cmd_lowered: "\<forall>c\<in>set (trim (toLowerCase t)). toLowerCase_char c = c"
  by (blast intro: command_lowered)

lemma color_step_is_loop: "color_step cmd st = color_loop COLOR_VARIATIONS cmd st"
proof (cases "list_ex (str_includes cmd) (concat (map snd COLOR_VARIATIONS))")
  case True
  then show ?thesis by (rule color_step_some)
next
  case False
  then have "\<forall>(c, vs)\<in>set COLOR_VARIATIONS. \<not> list_ex (str_includes cmd) vs"
    by (fastforce simp: list_ex_iff)
  then have "color_loop COLOR_VARIATIONS cmd st = st" by (rule color_loop_none)
  with color_step_none [OF False] show ?thesis by simp
qed

lemma processVoiceCommand_steps:
  assumes "trim (toLowerCase text) = cmd"
  shows "processVoiceCommand text =
      brightness_step cmd
        (color_loop COLOR_VARIATIONS cmd (power_step cmd \<lparr>action = '''', color = ''''\<rparr>))"
    and "power_step cmd st =
     (if list_ex (str_includes cmd) [''turn on'', ''turn off'', ''on'', ''off'']
      then st\<lparr>action := (if str_includes cmd ''off'' then ''turn_off'' else ''turn_on'')\<rparr>
      else st)"
    and "brightness_step cmd st =
     (if list_ex (str_includes cmd) [''bright'', ''dim'', ''brightness''] then
        if list_ex (str_includes cmd) [''full'', ''max'', ''maximum'', ''brightest'']
        then st\<lparr>action := ''set_brightness'', color := ''100''\<rparr>
        else if list_ex (str_includes cmd) [''half'', ''medium'', ''mid'']
        then st\<lparr>action := ''set_brightness'', color := ''50''\<rparr>
        else if list_ex (str_includes cmd) [''low'', ''dim'', ''minimum'']
        then st\<lparr>action := ''set_brightness'', color := ''20''\<rparr>
        else st
      else st)"
proof -
  have low: "\<forall>c\<in>set cmd. toLowerCase_char c = c"
    unfolding assms [symmetric] by (rule cmd_lowered)
  show "processVoiceCommand text =
      brightness_step cmd
        (color_loop COLOR_VARIATIONS cmd (power_step cmd \<lparr>action = '''', color = ''''\<rparr>))"
    by (simp only: processVoiceCommand_def assms color_step_is_loop Let_def)
  show "power_step cmd st =
     (if list_ex (str_includes cmd) [''turn on'', ''turn off'', ''on'', ''off'']
      then st\<lparr>action := (if str_includes cmd ''off'' then ''turn_off'' else ''turn_on'')\<rparr>
      else st)"
    by (rule power_step_lowered [OF low])
  show "brightness_step cmd st =
     (if list_ex (str_includes cmd) [''bright'', ''dim'', ''brightness''] then
        if list_ex (str_includes cmd) [''full'', ''max'', ''maximum'', ''brightest'']
        then st\<lparr>action := ''set_brightness'', color := ''100''\<rparr>
        else if list_ex (str_includes cmd) [''half'', ''medium'', ''mid'']
        then st\<lparr>action := ''set_brightness'', color := ''50''\<rparr>
        else if list_ex (str_includes cmd) [''low'', ''dim'', ''minimum'']
        then st\<lparr>action := ''set_brightness'', color := ''20''\<rparr>
        else st
      else st)"
    by (rule brightness_step_lowered [OF low])
qed

lemma eq_char_of_iff: "(c = char_of (n :: nat)) \<longleftrightarrow> (take_bit 8 n = of_char c)"
  using char_of_eq_iff [of n c] by auto

lemmas literal_eval = toLowerCase_def toLowerCase_char_def trim_def isTrimmed_def char_of_eq_iff
  eq_char_of_iff

lemmas pvc_unfold = processVoiceCommand_def Let_def color_step_is_loop

lemmas command_eval = literal_eval power_step_lowered brightness_step_lowered COLOR_VARIATIONS_def

lemma color_loop_no_synonym:
  assumes "\<not> list_ex (str_includes cmd) (concat (map snd COLOR_VARIATIONS))"
  shows "color_loop COLOR_VARIATIONS cmd st = st"
  using color_step_none [OF assms, of st] by (simp only: color_step_is_loop)

lemma power_step_shape:
  assumes "trim (toLowerCase text) = cmd"
  shows "color (power_step cmd \<lparr>action = '''', color = ''''\<rparr>) = ''''"
    and "action (power_step cmd \<lparr>action = '''', color = ''''\<rparr>) \<in> {'''', ''turn_on'', ''turn_off''}"
  unfolding processVoiceCommand_steps(2) [OF assms] by simp_all

lemma color_names: "fst ` set COLOR_VARIATIONS =
  {''red'', ''blue'', ''green'', ''yellow'', ''white'', ''black'', ''purple'', ''orange'', ''pink''}"
  by (simp add: COLOR_VARIATIONS_def)

lemma after_color_shape:
  assumes "trim (toLowerCase text) = cmd"
    and "st2 = color_loop COLOR_VARIATIONS cmd (power_step cmd \<lparr>action = '''', color = ''''\<rparr>)"
  shows "(color st2 = '''' \<and> action st2 \<in> {'''', ''turn_on'', ''turn_off''}) \<or>
         (action st2 = ''set_color'' \<and> color st2 \<in> fst ` set COLOR_VARIATIONS)"
proof -
  let ?st1 = "power_step cmd \<lparr>action = '''', color = ''''\<rparr>"
  from color_loop_cases [of COLOR_VARIATIONS cmd ?st1]
  consider "st2 = ?st1"
    | c where "c \<in> fst ` set COLOR_VARIATIONS" "st2 = ?st1\<lparr>action := ''set_color'', color := c\<rparr>"
    unfolding assms(2) by blast
  then show ?thesis
  proof cases
    case 1
    with power_step_shape [OF assms(1)] show ?thesis by simp
  next
    case 2
    then show ?thesis by simp
  qed
qed

section \<open>The claims\<close>

text \<open>
  C1 (corrected). When the lowercased, trimmed text matches the power pattern, contains
  no color synonym, and does not contain a brightness word together with a level
  keyword, the result is \<open>turn_off\<close> if the text contains \<open>off\<close> and \<open>turn_on\<close> otherwise,
  with no parameter; in particular \<open>turn it on, not off\<close> gives \<open>turn_off\<close>.
\<close>

theorem power_off_wins_unless_overridden:
  assumes cmd: "cmd = trim (toLowerCase text)"
    and power: "list_ex (str_includes cmd) [''turn on'', ''turn off'', ''on'', ''off'']"
    and nocolor: "\<not> list_ex (str_includes cmd) (concat (map snd COLOR_VARIATIONS))"
    and nolevel: "\<not> (list_ex (str_includes cmd) [''bright'', ''dim'', ''brightness'']
         \<and> list_ex (str_includes cmd) [''full'', ''max'', ''maximum'', ''brightest'',
               ''half'', ''medium'', ''mid'', ''low'', ''dim'', ''minimum''])"
  shows "processVoiceCommand text =
           \<lparr>action = (if str_includes cmd ''off'' then ''turn_off'' else ''turn_on''),
            color = ''''\<rparr>
         \<and> processVoiceCommand ''turn it on, not off'' = \<lparr>action = ''turn_off'', color = ''''\<rparr>"
proof
  note st = processVoiceCommand_steps [OF cmd [symmetric]]
  have b: "brightness_step cmd s = s" for s
    using nolevel unfolding st(3) by auto
  show "processVoiceCommand text =
           \<lparr>action = (if str_includes cmd ''off'' then ''turn_off'' else ''turn_on''),
            color = ''''\<rparr>"
    unfolding st(1) b color_loop_no_synonym [OF nocolor] st(2) using power by simp
  show "processVoiceCommand ''turn it on, not off'' = \<lparr>action = ''turn_off'', color = ''''\<rparr>"
    by (simp only: pvc_unfold) (simp add: command_eval)
qed

theorem power_off_wins_witness:
  "list_ex (str_includes ''turn the lamp off then on'') [''turn on'', ''turn off'', ''on'', ''off'']
   \<and> processVoiceCommand ''Turn the lamp OFF then on '' = \<lparr>action = ''turn_off'', color = ''''\<rparr>"
proof -
  have c: "''turn the lamp off then on'' = trim (toLowerCase ''Turn the lamp OFF then on '')"
    by (simp add: literal_eval)
  have p: "list_ex (str_includes ''turn the lamp off then on'') [''turn on'', ''turn off'', ''on'', ''off'']"
    by simp
  have n: "\<not> list_ex (str_includes ''turn the lamp off then on'') (concat (map snd COLOR_VARIATIONS))"
    by (simp add: COLOR_VARIATIONS_def)
  have l: "\<not> (list_ex (str_includes ''turn the lamp off then on'') [''bright'', ''dim'', ''brightness'']
         \<and> list_ex (str_includes ''turn the lamp off then on'') [''full'', ''max'', ''maximum'', ''brightest'',
               ''half'', ''medium'', ''mid'', ''low'', ''dim'', ''minimum''])"
    by simp
  from power_off_wins_unless_overridden [OF c p n l] p show ?thesis by simp
qed

text \<open>The claim as stated fails where the color step overwrites the power action: the
  text matches the power pattern and holds no \<open>off\<close>, and the result is a color
  command.\<close>

theorem power_overridden_by_color:
  "list_ex (str_includes (trim (toLowerCase ''turn on the red light'')))
      [''turn on'', ''turn off'', ''on'', ''off'']
   \<and> \<not> str_includes (trim (toLowerCase ''turn on the red light'')) ''off''
   \<and> processVoiceCommand ''turn on the red light'' = \<lparr>action = ''set_color'', color = ''red''\<rparr>"
proof -
  have c: "trim (toLowerCase ''turn on the red light'') = ''turn on the red light''"
    by (simp add: literal_eval)
  have "processVoiceCommand ''turn on the red light'' = \<lparr>action = ''set_color'', color = ''red''\<rparr>"
    by (simp only: pvc_unfold) (simp add: command_eval)
  then show ?thesis unfolding c by simp
qed

text \<open>
  C2 (corrected). When the lowercased, trimmed text contains a color synonym, a
  brightness word (\<open>bright\<close>, \<open>dim\<close>, \<open>brightness\<close>) and a level keyword, the result is
  the brightness command, whatever the power and color steps had set: the brightness
  step runs last and overwrites both variables.
\<close>

theorem brightness_level_overrides_color:
  assumes cmd: "cmd = trim (toLowerCase text)"
    and colorword: "list_ex (str_includes cmd) (concat (map snd COLOR_VARIATIONS))"
    and brightword: "list_ex (str_includes cmd) [''bright'', ''dim'', ''brightness'']"
    and level: "list_ex (str_includes cmd) [''full'', ''max'', ''maximum'', ''brightest'',
               ''half'', ''medium'', ''mid'', ''low'', ''dim'', ''minimum'']"
  shows "processVoiceCommand text =
           \<lparr>action = ''set_brightness'',
            color = (if list_ex (str_includes cmd) [''full'', ''max'', ''maximum'', ''brightest'']
                     then ''100''
                     else if list_ex (str_includes cmd) [''half'', ''medium'', ''mid'']
                     then ''50'' else ''20'')\<rparr>
         \<and> brightness_step cmd st = processVoiceCommand text"
proof -
  note st = processVoiceCommand_steps [OF cmd [symmetric]]
  have b: "brightness_step cmd s =
           \<lparr>action = ''set_brightness'',
            color = (if list_ex (str_includes cmd) [''full'', ''max'', ''maximum'', ''brightest'']
                     then ''100''
                     else if list_ex (str_includes cmd) [''half'', ''medium'', ''mid'']
                     then ''50'' else ''20'')\<rparr>" for s
    using brightword level unfolding st(3) by auto
  show ?thesis unfolding st(1) b by simp
qed

theorem brightness_level_overrides_color_witness:
  "list_ex (str_includes ''set it to blue at half brightness'') (concat (map snd COLOR_VARIATIONS))
   \<and> processVoiceCommand ''Set it to blue at half brightness'' =
        \<lparr>action = ''set_brightness'', color = ''50''\<rparr>
   \<and> brightness_step ''set it to blue at half brightness'' \<lparr>action = ''set_color'', color = ''blue''\<rparr> =
        \<lparr>action = ''set_brightness'', color = ''50''\<rparr>"
proof -
  have c: "''set it to blue at half brightness'' = trim (toLowerCase ''Set it to blue at half brightness'')"
    by (simp add: literal_eval)
  have w: "list_ex (str_includes ''set it to blue at half brightness'') (concat (map snd COLOR_VARIATIONS))"
    by (simp add: COLOR_VARIATIONS_def)
  have b: "list_ex (str_includes ''set it to blue at half brightness'') [''bright'', ''dim'', ''brightness'']"
    by simp
  have l: "list_ex (str_includes ''set it to blue at half brightness'') [''full'', ''max'', ''maximum'',
      ''brightest'', ''half'', ''medium'', ''mid'', ''low'', ''dim'', ''minimum'']"
    by simp
  from brightness_level_overrides_color [OF c w b l, of "\<lparr>action = ''set_color'', color = ''blue''\<rparr>"] w
  show ?thesis by simp
qed

text \<open>The claim as stated fails where no level keyword occurs: the text holds a color
  word and a brightness word, and the color command stays.\<close>

theorem brightness_word_without_level_keeps_color:
  "list_ex (str_includes (trim (toLowerCase ''bright red''))) (concat (map snd COLOR_VARIATIONS))
   \<and> list_ex (str_includes (trim (toLowerCase ''bright red''))) [''bright'', ''dim'', ''brightness'']
   \<and> processVoiceCommand ''bright red'' = \<lparr>action = ''set_color'', color = ''red''\<rparr>"
proof -
  have c: "trim (toLowerCase ''bright red'') = ''bright red''"
    by (simp add: literal_eval)
  have "processVoiceCommand ''bright red'' = \<lparr>action = ''set_color'', color = ''red''\<rparr>"
    by (simp only: pvc_unfold) (simp add: command_eval)
  then show ?thesis unfolding c by (simp add: COLOR_VARIATIONS_def)
qed

text \<open>
  C3 (confirmed). For every color of the table and every synonym \<open>s\<close> of it,
  \<open>make it s\<close> gives \<open>set_color\<close> with the canonical name of that color.
\<close>

theorem make_it_synonym_sets_color:
  "\<forall>(c, syns)\<in>set COLOR_VARIATIONS. \<forall>s\<in>set syns.
     processVoiceCommand (''make it '' @ s) = \<lparr>action = ''set_color'', color = c\<rparr>"
proof -
  have "list_all (\<lambda>(c, syns). list_all (\<lambda>s.
      processVoiceCommand (''make it '' @ s) = \<lparr>action = ''set_color'', color = c\<rparr>) syns)
    COLOR_VARIATIONS"
    apply (simp only: COLOR_VARIATIONS_def list.pred_inject prod.case append.simps)
    apply (intro conjI)
    apply (simp_all only: pvc_unfold)
    apply (simp_all add: command_eval)
    done
  then show ?thesis by (simp add: list_all_iff case_prod_beta)
qed

theorem make_it_synonym_sets_color_witness:
  "(''pink'', [''pink'', ''rose'', ''magenta'']) \<in> set COLOR_VARIATIONS
   \<and> ''magenta'' \<in> set [''pink'', ''rose'', ''magenta'']
   \<and> processVoiceCommand ''make it magenta'' = \<lparr>action = ''set_color'', color = ''pink''\<rparr>"
proof -
  have m: "(''pink'', [''pink'', ''rose'', ''magenta'']) \<in> set COLOR_VARIATIONS"
    by (simp add: COLOR_VARIATIONS_def)
  have s: "''magenta'' \<in> set [''pink'', ''rose'', ''magenta'']" by simp
  from make_it_synonym_sets_color m s
  have "processVoiceCommand (''make it '' @ ''magenta'') = \<lparr>action = ''set_color'', color = ''pink''\<rparr>"
    by fast
  with m s show ?thesis by simp
qed

text \<open>
  C4 (confirmed). Whenever the result is \<open>set_brightness\<close>, the parameter is one of
  \<open>100\<close>, \<open>50\<close>, \<open>20\<close>, chosen by keyword: \<open>100\<close> when one of full/max/maximum/brightest
  occurs, otherwise \<open>50\<close> when one of half/medium/mid occurs, otherwise \<open>20\<close>, and then
  one of low/dim/minimum occurs; \<open>set brightness to max\<close> gives \<open>100\<close>.
\<close>

theorem set_brightness_parameter:
  assumes cmd: "cmd = trim (toLowerCase text)"
    and sb: "action (processVoiceCommand text) = ''set_brightness''"
  shows "color (processVoiceCommand text) \<in> {''100'', ''50'', ''20''}
         \<and> (color (processVoiceCommand text) = ''100'' \<longleftrightarrow>
              list_ex (str_includes cmd) [''full'', ''max'', ''maximum'', ''brightest''])
         \<and> (color (processVoiceCommand text) = ''50'' \<longleftrightarrow>
              \<not> list_ex (str_includes cmd) [''full'', ''max'', ''maximum'', ''brightest''] \<and>
              list_ex (str_includes cmd) [''half'', ''medium'', ''mid''])
         \<and> (color (processVoiceCommand text) = ''20'' \<longleftrightarrow>
              \<not> list_ex (str_includes cmd) [''full'', ''max'', ''maximum'', ''brightest''] \<and>
              \<not> list_ex (str_includes cmd) [''half'', ''medium'', ''mid''] \<and>
              list_ex (str_includes cmd) [''low'', ''dim'', ''minimum''])
         \<and> processVoiceCommand ''set brightness to max'' =
              \<lparr>action = ''set_brightness'', color = ''100''\<rparr>"
proof -
  note st = processVoiceCommand_steps [OF cmd [symmetric]]
  define st2 where "st2 = color_loop COLOR_VARIATIONS cmd (power_step cmd \<lparr>action = '''', color = ''''\<rparr>)"
  have a2: "action st2 \<noteq> ''set_brightness''"
    using after_color_shape [OF cmd [symmetric] st2_def] by auto
  have r: "processVoiceCommand text = brightness_step cmd st2"
    unfolding st(1) st2_def ..
  define bw where "bw = list_ex (str_includes cmd) [''bright'', ''dim'', ''brightness'']"
  define hi where "hi = list_ex (str_includes cmd) [''full'', ''max'', ''maximum'', ''brightest'']"
  define mid where "mid = list_ex (str_includes cmd) [''half'', ''medium'', ''mid'']"
  define low where "low = list_ex (str_includes cmd) [''low'', ''dim'', ''minimum'']"
  have b: "brightness_step cmd st2 =
      (if bw then if hi then st2\<lparr>action := ''set_brightness'', color := ''100''\<rparr>
        else if mid then st2\<lparr>action := ''set_brightness'', color := ''50''\<rparr>
        else if low then st2\<lparr>action := ''set_brightness'', color := ''20''\<rparr>
        else st2 else st2)"
    unfolding st(3) bw_def hi_def mid_def low_def ..
  from sb a2 have fired: "bw \<and> (hi \<or> mid \<or> low)"
    unfolding r b by (cases bw; cases hi; cases mid; cases low; simp)
  have 1: "color (processVoiceCommand text) \<in> {''100'', ''50'', ''20''}"
    and 2: "color (processVoiceCommand text) = ''100'' \<longleftrightarrow> hi"
    and 3: "color (processVoiceCommand text) = ''50'' \<longleftrightarrow> \<not> hi \<and> mid"
    and 4: "color (processVoiceCommand text) = ''20'' \<longleftrightarrow> \<not> hi \<and> \<not> mid \<and> low"
    using fired unfolding r b by (cases hi; cases mid; cases low; simp)+
  have 5: "processVoiceCommand ''set brightness to max'' =
              \<lparr>action = ''set_brightness'', color = ''100''\<rparr>"
    by (simp only: pvc_unfold) (simp add: command_eval)
  from 1 2 3 4 5 show ?thesis unfolding hi_def mid_def low_def by blast
qed

theorem set_brightness_parameter_witness:
  "action (processVoiceCommand ''Dim the lights to medium'') = ''set_brightness''
   \<and> list_ex (str_includes ''dim the lights to medium'') [''half'', ''medium'', ''mid'']
   \<and> color (processVoiceCommand ''Dim the lights to medium'') = ''50''"
proof -
  have c: "''dim the lights to medium'' = trim (toLowerCase ''Dim the lights to medium'')"
    by (simp add: literal_eval)
  have a: "action (processVoiceCommand ''Dim the lights to medium'') = ''set_brightness''"
    by (simp only: pvc_unfold) (simp add: command_eval)
  have m: "list_ex (str_includes ''dim the lights to medium'') [''half'', ''medium'', ''mid'']"
    by simp
  have h: "\<not> list_ex (str_includes ''dim the lights to medium'')
      [''full'', ''max'', ''maximum'', ''brightest'']"
    by simp
  from set_brightness_parameter [OF c a] m h
  have "color (processVoiceCommand ''Dim the lights to medium'') = ''50''" by blast
  with a m show ?thesis by blast
qed

text \<open>
  C5 (corrected). The color loop walks the table in insertion order and stops at the
  first color one of whose synonyms occurs in the text. When the brightness step
  assigns nothing (no brightness word together with a level keyword), the result is
  \<open>set_color\<close> with the name of that first color; so of two colors whose synonyms
  occur, the later one is never returned.
\<close>

theorem first_color_in_table_wins:
  assumes cmd: "cmd = trim (toLowerCase text)"
    and entry: "COLOR_VARIATIONS = pre @ (c, vs) # post"
    and found: "list_ex (str_includes cmd) vs"
    and earlier: "\<forall>(c', vs')\<in>set pre. \<not> list_ex (str_includes cmd) vs'"
    and nolevel: "\<not> (list_ex (str_includes cmd) [''bright'', ''dim'', ''brightness'']
         \<and> list_ex (str_includes cmd) [''full'', ''max'', ''maximum'', ''brightest'',
               ''half'', ''medium'', ''mid'', ''low'', ''dim'', ''minimum''])"
  shows "color_loop COLOR_VARIATIONS cmd st = st\<lparr>action := ''set_color'', color := c\<rparr>
         \<and> processVoiceCommand text = \<lparr>action = ''set_color'', color = c\<rparr>"
proof -
  note st = processVoiceCommand_steps [OF cmd [symmetric]]
  have loop: "color_loop COLOR_VARIATIONS cmd s = s\<lparr>action := ''set_color'', color := c\<rparr>" for s
    using entry earlier found by (rule color_loop_first)
  have b: "brightness_step cmd s = s" for s
    using nolevel unfolding st(3) by auto
  show ?thesis unfolding st(1) b loop by simp
qed

theorem first_color_in_table_wins_witness:
  "list_ex (str_includes ''make it orange or blue'') [''orange'', ''tangerine'']
   \<and> list_ex (str_includes ''make it orange or blue'') [''blue'', ''azure'', ''navy'']
   \<and> processVoiceCommand ''Make it orange or blue'' = \<lparr>action = ''set_color'', color = ''blue''\<rparr>"
proof -
  have c: "''make it orange or blue'' = trim (toLowerCase ''Make it orange or blue'')"
    by (simp add: literal_eval)
  have e: "COLOR_VARIATIONS = [(''red'', [''red'', ''crimson'', ''scarlet''])]
        @ (''blue'', [''blue'', ''azure'', ''navy''])
        # [(''green'', [''green'', ''emerald'', ''lime'']),
           (''yellow'', [''yellow'', ''golden'', ''amber'']),
           (''white'', [''white'', ''bright'', ''light'']),
           (''black'', [''black'', ''dark'', ''midnight'']),
           (''purple'', [''purple'', ''violet'', ''lavender'']),
           (''orange'', [''orange'', ''tangerine'']),
           (''pink'', [''pink'', ''rose'', ''magenta''])]"
    by (simp add: COLOR_VARIATIONS_def)
  have f: "list_ex (str_includes ''make it orange or blue'') [''blue'', ''azure'', ''navy'']"
    by simp
  have o: "list_ex (str_includes ''make it orange or blue'') [''orange'', ''tangerine'']"
    by simp
  have p: "\<forall>(c', vs')\<in>set [(''red'', [''red'', ''crimson'', ''scarlet''])].
      \<not> list_ex (str_includes ''make it orange or blue'') vs'"
    by simp
  have l: "\<not> (list_ex (str_includes ''make it orange or blue'') [''bright'', ''dim'', ''brightness'']
         \<and> list_ex (str_includes ''make it orange or blue'') [''full'', ''max'', ''maximum'', ''brightest'',
               ''half'', ''medium'', ''mid'', ''low'', ''dim'', ''minimum''])"
    by simp
  from first_color_in_table_wins [OF c e f p l] f o show ?thesis by simp
qed

text \<open>The claim as stated fails where the brightness step overwrites the color: the
  text holds synonyms of two colors, and the result is no color command.\<close>

theorem two_colors_overridden_by_brightness:
  "list_ex (str_includes (trim (toLowerCase ''dim the red and blue lights''))) [''red'', ''crimson'', ''scarlet'']
   \<and> list_ex (str_includes (trim (toLowerCase ''dim the red and blue lights''))) [''blue'', ''azure'', ''navy'']
   \<and> processVoiceCommand ''dim the red and blue lights'' = \<lparr>action = ''set_brightness'', color = ''20''\<rparr>"
proof -
  have c: "trim (toLowerCase ''dim the red and blue lights'') = ''dim the red and blue lights''"
    by (simp add: literal_eval)
  have "processVoiceCommand ''dim the red and blue lights'' = \<lparr>action = ''set_brightness'', color = ''20''\<rparr>"
    by (simp only: pvc_unfold) (simp add: command_eval)
  then show ?thesis unfolding c by simp
qed

text \<open>
  C6 (confirmed). \<open>processVoiceCommand\<close> is a total function with no failing branch.
  When the text matches neither the power pattern nor a color synonym nor a brightness
  word, both variables stay empty: no action and no parameter. The empty string and
  \<open>banana\<close> are such inputs.
\<close>

theorem unrecognized_yields_none:
  assumes cmd: "cmd = trim (toLowerCase text)"
    and nopower: "\<not> list_ex (str_includes cmd) [''turn on'', ''turn off'', ''on'', ''off'']"
    and nocolor: "\<not> list_ex (str_includes cmd) (concat (map snd COLOR_VARIATIONS))"
    and nobright: "\<not> list_ex (str_includes cmd) [''bright'', ''dim'', ''brightness'']"
  shows "processVoiceCommand text = \<lparr>action = '''', color = ''''\<rparr>
         \<and> processVoiceCommand '''' = \<lparr>action = '''', color = ''''\<rparr>
         \<and> processVoiceCommand ''banana'' = \<lparr>action = '''', color = ''''\<rparr>"
proof -
  note st = processVoiceCommand_steps [OF cmd [symmetric]]
  have b: "brightness_step cmd s = s" for s
    using nobright unfolding st(3) by simp
  have 1: "processVoiceCommand text = \<lparr>action = '''', color = ''''\<rparr>"
    unfolding st(1) b color_loop_no_synonym [OF nocolor] st(2) using nopower by simp
  have 2: "processVoiceCommand '''' = \<lparr>action = '''', color = ''''\<rparr>"
    by (simp only: pvc_unfold) (simp add: command_eval)
  have 3: "processVoiceCommand ''banana'' = \<lparr>action = '''', color = ''''\<rparr>"
    by (simp only: pvc_unfold) (simp add: command_eval)
  from 1 2 3 show ?thesis by blast
qed

theorem unrecognized_yields_none_witness:
  "\<not> list_ex (str_includes ''hello there'') [''turn on'', ''turn off'', ''on'', ''off'']
   \<and> processVoiceCommand '' Hello there'' = \<lparr>action = '''', color = ''''\<rparr>"
proof -
  have c: "''hello there'' = trim (toLowerCase '' Hello there'')"
    by (simp add: literal_eval)
  have p: "\<not> list_ex (str_includes ''hello there'') [''turn on'', ''turn off'', ''on'', ''off'']"
    by simp
  have n: "\<not> list_ex (str_includes ''hello there'') (concat (map snd COLOR_VARIATIONS))"
    by (simp add: COLOR_VARIATIONS_def)
  have b: "\<not> list_ex (str_includes ''hello there'') [''bright'', ''dim'', ''brightness'']"
    by simp
  from unrecognized_yields_none [OF c p n b] p show ?thesis by simp
qed

text \<open>
  C7 (confirmed). For every input the parameter is present (the variable \<open>color\<close> is not
  empty) if and only if the action is \<open>set_color\<close> or \<open>set_brightness\<close>.
\<close>

theorem parameter_iff_color_or_brightness:
  "color (processVoiceCommand text) \<noteq> '''' \<longleftrightarrow>
     action (processVoiceCommand text) = ''set_color'' \<or>
     action (processVoiceCommand text) = ''set_brightness''"
proof -
  define cmd where "cmd = trim (toLowerCase text)"
  note st = processVoiceCommand_steps [OF cmd_def [symmetric]]
  define st2 where "st2 = color_loop COLOR_VARIATIONS cmd (power_step cmd \<lparr>action = '''', color = ''''\<rparr>)"
  have shape: "(color st2 = '''' \<and> action st2 \<in> {'''', ''turn_on'', ''turn_off''}) \<or>
         (action st2 = ''set_color'' \<and> color st2 \<in> fst ` set COLOR_VARIATIONS)"
    by (rule after_color_shape [OF cmd_def [symmetric] st2_def])
  have s2: "color st2 \<noteq> '''' \<longleftrightarrow> action st2 = ''set_color'' \<or> action st2 = ''set_brightness''"
    using shape unfolding color_names by auto
  have r: "processVoiceCommand text = brightness_step cmd st2"
    unfolding st(1) st2_def ..
  define bw where "bw = list_ex (str_includes cmd) [''bright'', ''dim'', ''brightness'']"
  define hi where "hi = list_ex (str_includes cmd) [''full'', ''max'', ''maximum'', ''brightest'']"
  define mid where "mid = list_ex (str_includes cmd) [''half'', ''medium'', ''mid'']"
  define low where "low = list_ex (str_includes cmd) [''low'', ''dim'', ''minimum'']"
  have b: "brightness_step cmd st2 =
      (if bw then if hi then st2\<lparr>action := ''set_brightness'', color := ''100''\<rparr>
        else if mid then st2\<lparr>action := ''set_brightness'', color := ''50''\<rparr>
        else if low then st2\<lparr>action := ''set_brightness'', color := ''20''\<rparr>
        else st2 else st2)"
    unfolding st(3) bw_def hi_def mid_def low_def ..
  have "brightness_step cmd st2 = st2 \<or>
    (\<exists>l\<in>{''100'', ''50'', ''20''}.
        brightness_step cmd st2 = st2\<lparr>action := ''set_brightness'', color := l\<rparr>)"
    unfolding b by (cases bw; cases hi; cases mid; cases low; simp)
  then consider "brightness_step cmd st2 = st2"
    | l where "l \<in> {''100'', ''50'', ''20''}"
        "brightness_step cmd st2 = st2\<lparr>action := ''set_brightness'', color := l\<rparr>"
    by blast
  then show ?thesis
  proof cases
    case 1
    with s2 show ?thesis unfolding r by simp
  next
    case 2
    then show ?thesis unfolding r by auto
  qed
qed

theorem parameter_iff_color_or_brightness_witness:
  "color (processVoiceCommand ''make it crimson'') \<noteq> ''''
   \<and> action (processVoiceCommand ''make it crimson'') = ''set_color''
   \<and> color (processVoiceCommand ''turn on'') = ''''"
proof -
  have 1: "action (processVoiceCommand ''make it crimson'') = ''set_color''"
    by (simp only: pvc_unfold) (simp add: command_eval)
  have 2: "action (processVoiceCommand ''turn on'') = ''turn_on''"
    by (simp only: pvc_unfold) (simp add: command_eval)
  from parameter_iff_color_or_brightness [of "''make it crimson''"] 1
  have 3: "color (processVoiceCommand ''make it crimson'') \<noteq> ''''" by simp
  from parameter_iff_color_or_brightness [of "''turn on''"] 2
  have 4: "color (processVoiceCommand ''turn on'') = ''''" by simp
  from 1 3 4 show ?thesis by blast
qed

text \<open>
  C8 (confirmed). In the color table the synonym lists of two different colors have no
  word in common.
\<close>

theorem synonyms_pairwise_disjoint:
  "\<forall>(c1, s1)\<in>set COLOR_VARIATIONS. \<forall>(c2, s2)\<in>set COLOR_VARIATIONS.
     c1 \<noteq> c2 \<longrightarrow> set s1 \<inter> set s2 = {}"
  by (simp add: COLOR_VARIATIONS_def)

theorem synonyms_pairwise_disjoint_witness:
  "(''red'', [''red'', ''crimson'', ''scarlet'']) \<in> set COLOR_VARIATIONS \<and>
   (''pink'', [''pink'', ''rose'', ''magenta'']) \<in> set COLOR_VARIATIONS \<and>
   ''red'' \<noteq> ''pink'' \<and>
   set [''red'', ''crimson'', ''scarlet''] \<inter> set [''pink'', ''rose'', ''magenta''] = {}"
proof -
  have r: "(''red'', [''red'', ''crimson'', ''scarlet'']) \<in> set COLOR_VARIATIONS"
    and p: "(''pink'', [''pink'', ''rose'', ''magenta'']) \<in> set COLOR_VARIATIONS"
    and n: "''red'' \<noteq> ''pink''"
    by (simp_all add: COLOR_VARIATIONS_def)
  from synonyms_pairwise_disjoint r p n
  have "set [''red'', ''crimson'', ''scarlet''] \<inter> set [''pink'', ''rose'', ''magenta''] = {}"
    by fast
  with r p n show ?thesis by blast
qed

text \<open>
  C10 (confirmed). The power pattern matches \<open>on\<close> as a substring: when the lowercased,
  trimmed text contains \<open>on\<close> anywhere, and contains no \<open>off\<close>, no color lead-in phrase,
  not \<open>color\<close>, no color synonym and none of \<open>bright\<close>, \<open>dim\<close>, \<open>brightness\<close>, the result is
  \<open>turn_on\<close>.
\<close>

theorem on_substring_turns_on:
  assumes cmd: "cmd = trim (toLowerCase text)"
    and on: "str_includes cmd ''on''"
    and nooff: "\<not> str_includes cmd ''off''"
    and nophrase: "\<not> list_ex (str_includes cmd) colorPhrases"
    and noword: "\<not> str_includes cmd ''color''"
    and nocolor: "\<not> list_ex (str_includes cmd) (concat (map snd COLOR_VARIATIONS))"
    and nobright: "\<not> list_ex (str_includes cmd) [''bright'', ''dim'', ''brightness'']"
  shows "processVoiceCommand text = \<lparr>action = ''turn_on'', color = ''''\<rparr>"
proof -
  note st = processVoiceCommand_steps [OF cmd [symmetric]]
  have b: "brightness_step cmd s = s" for s
    using nobright unfolding st(3) by simp
  show ?thesis
    unfolding st(1) b color_loop_no_synonym [OF nocolor] st(2) using on nooff by simp
qed

theorem on_substring_turns_on_witness:
  "str_includes ''salmon'' ''on''
   \<and> processVoiceCommand ''Salmon'' = \<lparr>action = ''turn_on'', color = ''''\<rparr>"
proof -
  have c: "''salmon'' = trim (toLowerCase ''Salmon'')"
    by (simp add: literal_eval)
  have o: "str_includes ''salmon'' ''on''" by simp
  have f: "\<not> str_includes ''salmon'' ''off''" by simp
  have p: "\<not> list_ex (str_includes ''salmon'') colorPhrases" by (simp add: colorPhrases_def)
  have w: "\<not> str_includes ''salmon'' ''color''" by simp
  have n: "\<not> list_ex (str_includes ''salmon'') (concat (map snd COLOR_VARIATIONS))"
    by (simp add: COLOR_VARIATIONS_def)
  have b: "\<not> list_ex (str_includes ''salmon'') [''bright'', ''dim'', ''brightness'']"
    by simp
  from on_substring_turns_on [OF c o f p w n b] o show ?thesis by simp
qed

section \<open>Facts about sending\<close>

lemma sendCommand_single_request:
  assumes "trim (webhookUrl e) \<noteq> ''''"
  shows "[ev \<leftarrow> sendCommand e act v. \<exists>u. ev = Get u] =
         [Get (trim (webhookUrl e) @ ''?'' @ urlSearchParams e (payload act v))]"
  using assms by (simp add: sendCommand_def Let_def split: settled.split)

lemma sendCommand_succeeds_iff_ok:
  assumes "trim (webhookUrl e) \<noteq> ''''"
  shows "(\<exists>s. SetLastCommand s \<in> set (sendCommand e act v)) \<longleftrightarrow>
         (\<exists>r. fetch e (trim (webhookUrl e) @ ''?'' @ urlSearchParams e (payload act v)) = Fulfilled r
              \<and> 200 \<le> status r \<and> status r \<le> 299)"
  using assms
  by (auto simp add: sendCommand_def check_response_def ok_def Let_def split: settled.splits if_splits)

lemma sendCommand_reports_status_when_body_readable:
  assumes "trim (webhookUrl e) \<noteq> ''''"
    and "fetch e (trim (webhookUrl e) @ ''?'' @ urlSearchParams e (payload act v)) = Fulfilled r"
    and "\<not> ok r" and "body_text r = Fulfilled t"
  shows "ConsoleError ''Error sending command:'' (Error (''HTTP '' @ show_nat (status r) @ '': '' @ t))
           \<in> set (sendCommand e act v)"
  using assms by (simp add: sendCommand_def check_response_def Let_def)

lemma sendCommand_index_reports_status:
  assumes "trim (webhookUrl e) \<noteq> ''''"
    and "fetch e (trim (webhookUrl e) @ ''?'' @ urlSearchParams e (payload_index act v)) = Fulfilled r"
    and "\<not> ok r"
  shows "\<exists>t. ConsoleError ''Error sending command:'' (Error (''HTTP '' @ show_nat (status r) @ '': '' @ t))
           \<in> set (sendCommand_index e act v)"
  using assms by (simp add: sendCommand_index_def check_response_index_def Let_def)

text \<open>
  C9 (the code departs from the claim). On a webhook URL that is not blank,
  \<open>sendCommand\<close> issues one GET to the trimmed URL with the serialised payload and
  succeeds exactly on a status from 200 to 299. But a response with another status
  whose body cannot be read is reported without its status code in the voice screen:
  the rejection of \<open>response.text()\<close> reaches the \<open>catch\<close> block in place of the
  \<open>HTTP status\<close> error. \<open>index.tsx\<close> guards the same read and reports the status.
\<close>

theorem sendCommand_drops_status_when_body_unreadable:
  "sendCommand
      \<lparr>webhookUrl = ''https://n8n.example/webhook/hue'', platform_web = False,
       urlSearchParams = enc,
       fetch = (\<lambda>url. Fulfilled \<lparr>status = 500,
                  body_text = Rejected (Error ''Network request failed'')\<rparr>)\<rparr>
      ''turn_on'' None =
     [SetIsLoading True,
      ConsoleLog ''Sending command:'' [(''action'', ''turn_on'')],
      Get (''https://n8n.example/webhook/hue?'' @ enc [(''action'', ''turn_on'')]),
      ConsoleError ''Error sending command:'' (Error ''Network request failed''),
      Alert ''Error'' ''Failed to send command. Please check your webhook URL.'',
      SetIsLoading False]
   \<and> sendCommand_index
      \<lparr>webhookUrl = ''https://n8n.example/webhook/hue'', platform_web = False,
       urlSearchParams = enc,
       fetch = (\<lambda>url. Fulfilled \<lparr>status = 500,
                  body_text = Rejected (Error ''Network request failed'')\<rparr>)\<rparr>
      ''on'' None =
     [SetIsLoading True,
      ConsoleLog ''Sending command:'' [(''action'', ''on'')],
      Get (''https://n8n.example/webhook/hue?'' @ enc [(''action'', ''on'')]),
      ConsoleError ''Error sending command:'' (Error ''HTTP 500: Unknown error''),
      Alert ''Error'' ''Failed to send command: HTTP 500: Unknown error'',
      SetIsLoading False]"
proof -
  have u: "trim ''https://n8n.example/webhook/hue'' = ''https://n8n.example/webhook/hue''"
    by (simp add: trim_def isTrimmed_def)
  have n: "show_nat 500 = ''500''"
    by (simp add: show_nat.simps char_of_eq_iff)
  show ?thesis
    by (simp add: sendCommand_def sendCommand_index_def payload_def payload_index_def
        check_response_def check_response_index_def ok_def truthy_def Let_def u n)
qed

end
